theory Spec2Isabelle
  imports Main "HOL-Library.Sublist"
begin

section \<open>Strings\<close>

text \<open>
  A JavaScript string is modelled as a \<^typ>\<open>string\<close> holding its UTF-8 bytes. The
  string methods used by the application are modelled on that representation:
  \<^item> \<open>s.startsWith(p)\<close>, \<open>s.endsWith(e)\<close> and \<open>s.includes(t)\<close> are prefix, suffix and
    contiguous-substring tests;
  \<^item> \<open>s.toLowerCase()\<close> lowers the letters \<open>A\<close> to \<open>Z\<close> and leaves every other byte
    alone. The application only tests the result for a suffix among its extensions,
    which are ASCII. The bytes of a non-ASCII character are never ASCII, and the only
    characters whose lower case holds an ASCII letter are U+212A (to \<open>k\<close>) and U+0130
    (to \<open>i\<close> followed by U+0307); no extension holds a \<open>k\<close> or ends in \<open>i\<close>, so the
    test has the same result as on the fully lowered string;
  \<^item> \<open>s.trim()\<close> removes white space and line terminators from both ends;
  \<^item> \<open>s.split(c)\<close> cuts the string at every occurrence of the character \<open>c\<close>;
  \<^item> \<open>n.toString()\<close> of a non-negative integer is its decimal numeral.
\<close>

definition startsWith :: "string \<Rightarrow> string \<Rightarrow> bool" where
  "startsWith s p = prefix p s"

definition endsWith :: "string \<Rightarrow> string \<Rightarrow> bool" where
  "endsWith s e = suffix e s"

definition includesStr :: "string \<Rightarrow> string \<Rightarrow> bool" where
  "includesStr s t = sublist t s"

fun toLowerChar :: "char \<Rightarrow> char" where
  "toLowerChar c =
    (if c = CHR ''A'' then CHR ''a'' else if c = CHR ''B'' then CHR ''b''
     else if c = CHR ''C'' then CHR ''c'' else if c = CHR ''D'' then CHR ''d''
     else if c = CHR ''E'' then CHR ''e'' else if c = CHR ''F'' then CHR ''f''
     else if c = CHR ''G'' then CHR ''g'' else if c = CHR ''H'' then CHR ''h''
     else if c = CHR ''I'' then CHR ''i'' else if c = CHR ''J'' then CHR ''j''
     else if c = CHR ''K'' then CHR ''k'' else if c = CHR ''L'' then CHR ''l''
     else if c = CHR ''M'' then CHR ''m'' else if c = CHR ''N'' then CHR ''n''
     else if c = CHR ''O'' then CHR ''o'' else if c = CHR ''P'' then CHR ''p''
     else if c = CHR ''Q'' then CHR ''q'' else if c = CHR ''R'' then CHR ''r''
     else if c = CHR ''S'' then CHR ''s'' else if c = CHR ''T'' then CHR ''t''
     else if c = CHR ''U'' then CHR ''u'' else if c = CHR ''V'' then CHR ''v''
     else if c = CHR ''W'' then CHR ''w'' else if c = CHR ''X'' then CHR ''x''
     else if c = CHR ''Y'' then CHR ''y'' else if c = CHR ''Z'' then CHR ''z''
     else c)"

definition toLowerCase :: "string \<Rightarrow> string" where
  "toLowerCase s = map toLowerChar s"

text \<open>
  The white space and line terminators that \<open>trim\<close> removes, each as its UTF-8 bytes:
  U+0009 to U+000D, U+0020, U+00A0, U+1680, U+2000 to U+200A, U+2028, U+2029, U+202F,
  U+205F, U+3000 and U+FEFF.
\<close>

definition whiteSpace :: "string list" where
  "whiteSpace =
     [[CHR 0x09], [CHR 0x0A], [CHR 0x0B], [CHR 0x0C], [CHR 0x0D], [CHR 0x20],
      [CHR 0xC2, CHR 0xA0], [CHR 0xE1, CHR 0x9A, CHR 0x80],
      [CHR 0xE2, CHR 0x80, CHR 0x80], [CHR 0xE2, CHR 0x80, CHR 0x81],
      [CHR 0xE2, CHR 0x80, CHR 0x82], [CHR 0xE2, CHR 0x80, CHR 0x83],
      [CHR 0xE2, CHR 0x80, CHR 0x84], [CHR 0xE2, CHR 0x80, CHR 0x85],
      [CHR 0xE2, CHR 0x80, CHR 0x86], [CHR 0xE2, CHR 0x80, CHR 0x87],
      [CHR 0xE2, CHR 0x80, CHR 0x88], [CHR 0xE2, CHR 0x80, CHR 0x89],
      [CHR 0xE2, CHR 0x80, CHR 0x8A], [CHR 0xE2, CHR 0x80, CHR 0xA8],
      [CHR 0xE2, CHR 0x80, CHR 0xA9], [CHR 0xE2, CHR 0x80, CHR 0xAF],
      [CHR 0xE2, CHR 0x81, CHR 0x9F], [CHR 0xE3, CHR 0x80, CHR 0x80],
      [CHR 0xEF, CHR 0xBB, CHR 0xBF]]"

text \<open>
  Stripping white space from the front, one character at a time; the first argument
  bounds the number of characters stripped, and the length of the string is enough.
\<close>

fun stripStart :: "string list \<Rightarrow> nat \<Rightarrow> string \<Rightarrow> string" where
  "stripStart ws 0 s = s"
| "stripStart ws (Suc n) s =
     (case List.find (\<lambda>w. prefix w s) ws of
        None \<Rightarrow> s
      | Some w \<Rightarrow> stripStart ws n (drop (length w) s))"

definition trimStart :: "string \<Rightarrow> string" where
  "trimStart s = stripStart whiteSpace (length s) s"

definition trimEnd :: "string \<Rightarrow> string" where
  "trimEnd s = rev (stripStart (map rev whiteSpace) (length s) (rev s))"

definition trim :: "string \<Rightarrow> string" where
  "trim s = trimEnd (trimStart s)"

text \<open>\<open>s.split(c)\<close> for a one-character separator: \<open>n\<close> separators give \<open>n + 1\<close> pieces.\<close>

fun splitOn :: "char \<Rightarrow> string \<Rightarrow> string list" where
  "splitOn c [] = [[]]"
| "splitOn c (x # xs) =
     (if x = c then [] # splitOn c xs
      else (case splitOn c xs of [] \<Rightarrow> [[x]] | l # ls \<Rightarrow> (x # l) # ls))"

text \<open>The decimal numeral of a natural number.\<close>

definition digit :: "nat \<Rightarrow> char" where
  "digit d = char_of (48 + d)"

fun toString :: "nat \<Rightarrow> string" where
  "toString n = (if n < 10 then [digit n] else toString (n div 10) @ [digit (n mod 10)])"

text \<open>JavaScript truthiness of a string: the empty string is falsy.\<close>

definition truthy :: "string \<Rightarrow> bool" where
  "truthy s \<longleftrightarrow> s \<noteq> []"

section \<open>Thrown values and awaited results\<close>

text \<open>
  A rejected promise or a \<open>throw\<close> carries either an \<open>Error\<close> instance, which has a
  \<open>message\<close>, or some other value. The result of an awaited call is a sum: \<open>Inl\<close> the
  thrown value, \<open>Inr\<close> the resolved one.
\<close>

datatype thrown = Error string | NonError

section \<open>The corpus assembler: \<open>processFiles\<close>\<close>

text \<open>
  A browser \<open>File\<close> of the selection: its two names, its byte size, and what
  \<open>FileReader.readAsText\<close> ends with (\<open>onload\<close> with the text, or \<open>onerror\<close>).
  The field \<open>size\<close> of the source is \<open>fsize\<close> in \<open>File\<close> and \<open>isize\<close> in \<open>FileItem\<close>.
\<close>

record File =
  webkitRelativePath :: string
  name :: string
  fsize :: nat
  readAsText :: "thrown + string"

record FileItem =
  path :: string
  isize :: nat

text \<open>The two configuration constants of \<open>src/App.tsx\<close>.\<close>

definition IGNORED_DIRS :: "string list" where
  "IGNORED_DIRS = [''node_modules'', ''.git'', ''dist'', ''build'', ''.next'', ''coverage'']"

definition ALLOWED_EXTENSIONS :: "string list" where
  "ALLOWED_EXTENSIONS = [''.ts'', ''.tsx'', ''.js'', ''.jsx'', ''.json'', ''.css'', ''.scss'',
     ''.html'', ''.md'', ''.sql'', ''.prisma'']"

text \<open>The same two constants in the second version of the component (\<open>part_000\<close>).\<close>

definition IGNORED_DIRS_v2 :: "string list" where
  "IGNORED_DIRS_v2 = [''node_modules'', ''.git'', ''dist'', ''build'', ''.next'', ''coverage'',
     ''.idea'', ''.vscode'']"

definition ALLOWED_EXTENSIONS_v2 :: "string list" where
  "ALLOWED_EXTENSIONS_v2 = [''.ts'', ''.tsx'', ''.js'', ''.jsx'', ''.json'', ''.css'', ''.scss'',
     ''.html'', ''.md'', ''.sql'', ''.prisma'', ''.py'', ''.go'', ''.rs'']"

text \<open>\<open>file.webkitRelativePath || file.name\<close>\<close>

definition filePath :: "File \<Rightarrow> string" where
  "filePath file = (if truthy (webkitRelativePath file) then webkitRelativePath file else name file)"

text \<open>
  \<open>dirs.some(dir => path.includes(`/${dir}/`) || path.startsWith(`${dir}/`))\<close>
\<close>

definition isIgnored :: "string list \<Rightarrow> string \<Rightarrow> bool" where
  "isIgnored dirs p =
     list_ex (\<lambda>dir. includesStr p (''/'' @ dir @ ''/'') \<or> startsWith p (dir @ ''/'')) dirs"

text \<open>\<open>exts.some(ext => path.toLowerCase().endsWith(ext))\<close>\<close>

definition isAllowed :: "string list \<Rightarrow> string \<Rightarrow> bool" where
  "isAllowed exts p = list_ex (\<lambda>ext. endsWith (toLowerCase p) ext) exts"

definition readFileContent :: "File \<Rightarrow> thrown + string" where
  "readFileContent file = readAsText file"

text \<open>\<open>`--- START OF FILE ${path} ---\n${content}\n\n`\<close>\<close>

definition fileBlock :: "string \<Rightarrow> string \<Rightarrow> string" where
  "fileBlock p content =
     ''--- START OF FILE '' @ p @ '' ---'' @ [CHR 0x0A] @ content @ [CHR 0x0A, CHR 0x0A]"

text \<open>
  The \<open>for\<close> loop of \<open>processFiles\<close>, with its two accumulators \<open>validFiles\<close> and
  \<open>concatenatedCode\<close>. The two \<open>continue\<close> statements and the inner \<open>catch\<close> go on with
  the next file and leave the accumulators as they are.
\<close>

fun processFiles_loop ::
  "string list \<Rightarrow> string list \<Rightarrow> File list \<Rightarrow> FileItem list \<Rightarrow> string \<Rightarrow> FileItem list \<times> string"
where
  "processFiles_loop dirs exts [] validFiles concatenatedCode = (validFiles, concatenatedCode)"
| "processFiles_loop dirs exts (file # files) validFiles concatenatedCode =
     (let p = filePath file in
      if isIgnored dirs p then processFiles_loop dirs exts files validFiles concatenatedCode
      else if \<not> isAllowed exts p then processFiles_loop dirs exts files validFiles concatenatedCode
      else (case readFileContent file of
              Inr content \<Rightarrow>
                processFiles_loop dirs exts files
                  (validFiles @ [\<lparr>path = p, isize = fsize file\<rparr>])
                  (concatenatedCode @ fileBlock p content)
            | Inl err \<Rightarrow> processFiles_loop dirs exts files validFiles concatenatedCode))"

section \<open>The application state\<close>

datatype AppState = IDLE | GENERATING | SUCCESS | ERROR

datatype Tab = DocTab | ChatTab

text \<open>
  The handle returned by \<open>createChatSession\<close>, identified by what it was created from:
  the credential, the corpus and the generated document that seed its history.
\<close>

record Chat =
  chatKey :: string
  fileContext :: string
  generatedDoc :: string

text \<open>The requests that leave the application, in the order they are issued.\<close>

datatype RemoteCall =
  GenerateContent string string
| ChatsCreate string string string

text \<open>
  The state of the \<open>App\<close> component: its \<open>useState\<close> cells, the \<open>chatSessionRef\<close>
  cell, the \<open>localStorage\<close> entry \<open>gemini_api_key\<close>, and the log of the requests issued
  so far (which the component does not hold itself; it records the effect of the calls).
\<close>

record App =
  code :: string
  fileList :: "FileItem list"
  docResult :: string
  appState :: AppState
  isReading :: bool
  isKeyModalOpen :: bool
  activeTab :: Tab
  chatSessionRef :: "Chat option"
  gemini_api_key :: "string option"
  remoteCalls :: "RemoteCall list"

text \<open>
  \<open>processFiles\<close>: the loop from empty accumulators, then \<open>setFileList\<close>, \<open>setCode\<close>
  and, in \<open>finally\<close>, \<open>setIsReading(false)\<close>.
\<close>

definition processFiles_cfg :: "string list \<Rightarrow> string list \<Rightarrow> File list \<Rightarrow> App \<Rightarrow> App" where
  "processFiles_cfg dirs exts files s =
     (case processFiles_loop dirs exts files [] [] of
        (validFiles, concatenatedCode) \<Rightarrow>
          s\<lparr>fileList := validFiles, code := concatenatedCode, isReading := False\<rparr>)"

definition processFiles :: "File list \<Rightarrow> App \<Rightarrow> App" where
  "processFiles = processFiles_cfg IGNORED_DIRS ALLOWED_EXTENSIONS"

definition processFiles_v2 :: "File list \<Rightarrow> App \<Rightarrow> App" where
  "processFiles_v2 = processFiles_cfg IGNORED_DIRS_v2 ALLOWED_EXTENSIONS_v2"

text \<open>A file of the selection whose read succeeds, given by its relative path.\<close>

definition mkFile :: "string \<Rightarrow> string \<Rightarrow> File" where
  "mkFile p content =
     \<lparr>webkitRelativePath = p, name = p, fsize = length content, readAsText = Inr content\<rparr>"

section \<open>The remote service: \<open>generateDocFromCode\<close> and \<open>createChatSession\<close>\<close>

text \<open>
  Both functions are \<open>async\<close>. Each is modelled in the two parts that the caller sees:
  what it does before it awaits (the credential check, then the request), and what it
  returns once the remote side has answered. The answer is a parameter: \<open>Inl\<close> when the
  call raises, \<open>Inr\<close> with the response otherwise; \<open>response.text\<close> may be undefined.
\<close>

definition generateDocFromCode_request :: "string \<Rightarrow> string \<Rightarrow> thrown + RemoteCall" where
  "generateDocFromCode_request apiKey codeText =
     (if \<not> truthy apiKey then Inl (Error ''API Key is required to generate documentation.'')
      else Inr (GenerateContent apiKey codeText))"

text \<open>\<open>response.text || "No response generated."\<close>\<close>

definition generateDocFromCode_result :: "thrown + string option \<Rightarrow> thrown + string" where
  "generateDocFromCode_result response =
     (case response of
        Inl e \<Rightarrow> Inl e
      | Inr None \<Rightarrow> Inr ''No response generated.''
      | Inr (Some t) \<Rightarrow> Inr (if truthy t then t else ''No response generated.''))"

definition createChatSession_request :: "string \<Rightarrow> string \<Rightarrow> string \<Rightarrow> thrown + RemoteCall" where
  "createChatSession_request apiKey context doc =
     (if \<not> truthy apiKey then Inl (Error ''API Key is required to create chat session.'')
      else Inr (ChatsCreate apiKey context doc))"

definition createChatSession_result ::
  "string \<Rightarrow> string \<Rightarrow> string \<Rightarrow> thrown + unit \<Rightarrow> thrown + Chat"
where
  "createChatSession_result apiKey context doc created =
     (case created of
        Inl e \<Rightarrow> Inl e
      | Inr _ \<Rightarrow> Inr \<lparr>chatKey = apiKey, fileContext = context, generatedDoc = doc\<rparr>)"

section \<open>The workflow controller: \<open>handleGenerate\<close>\<close>

text \<open>
  \<open>error instanceof Error ? error.message : 'Unknown error'\<close>, after the fixed heading of
  the error document. The heading and the fallback differ between the two versions.
\<close>

definition errorDocument :: "thrown \<Rightarrow> string" where
  "errorDocument e =
     ''**Error generating documentation:** '' @ [CHR 0x0A, CHR 0x0A]
       @ (case e of Error message \<Rightarrow> message | NonError \<Rightarrow> ''Unknown error'')"

definition errorDocument_v2 :: "thrown \<Rightarrow> string" where
  "errorDocument_v2 e =
     ''**System Error:** '' @ [CHR 0x0A, CHR 0x0A]
       @ (case e of Error message \<Rightarrow> message | NonError \<Rightarrow> ''Unknown error occurred.'')"

text \<open>
  A run of \<open>handleGenerate\<close> that is suspended at one of its two \<open>await\<close>s, with the
  values it has captured: the credential, the corpus and, at the second, the document.
\<close>

datatype Suspended =
  AwaitGenerateDoc string string
| AwaitCreateChat string string string

text \<open>The \<open>catch (error)\<close> block of \<open>handleGenerate\<close>.\<close>

definition handleGenerate_catch :: "(thrown \<Rightarrow> string) \<Rightarrow> thrown \<Rightarrow> App \<Rightarrow> App" where
  "handleGenerate_catch render e s = s\<lparr>docResult := render e, appState := ERROR\<rparr>"

text \<open>
  From the call of \<open>handleGenerate\<close> to its first \<open>await\<close>: the two guards, the reset
  of the previous cycle, and the request of \<open>generateDocFromCode\<close>.
\<close>

definition handleGenerate_start :: "(thrown \<Rightarrow> string) \<Rightarrow> App \<Rightarrow> App \<times> Suspended option" where
  "handleGenerate_start render s =
     (if \<not> truthy (trim (code s)) then (s, None)
      else (case gemini_api_key s of
              None \<Rightarrow> (s\<lparr>isKeyModalOpen := True\<rparr>, None)
            | Some apiKey \<Rightarrow>
                if \<not> truthy apiKey then (s\<lparr>isKeyModalOpen := True\<rparr>, None)
                else
                  (let s1 = s\<lparr>appState := GENERATING, docResult := [],
                               chatSessionRef := None, activeTab := DocTab\<rparr>
                   in case generateDocFromCode_request apiKey (code s) of
                        Inl e \<Rightarrow> (handleGenerate_catch render e s1, None)
                      | Inr call \<Rightarrow>
                          (s1\<lparr>remoteCalls := remoteCalls s1 @ [call]\<rparr>,
                           Some (AwaitGenerateDoc apiKey (code s))))))"

text \<open>
  From the answer of \<open>generateDocFromCode\<close> to the second \<open>await\<close>: \<open>setDocResult\<close> and
  the request of \<open>createChatSession\<close>, whose own failure is caught by the inner \<open>catch\<close>,
  after which \<open>setAppState(SUCCESS)\<close> runs.
\<close>

definition handleGenerate_afterDoc ::
  "(thrown \<Rightarrow> string) \<Rightarrow> string \<Rightarrow> string \<Rightarrow> thrown + string option \<Rightarrow> App \<Rightarrow> App \<times> Suspended option"
where
  "handleGenerate_afterDoc render apiKey codeText response s =
     (case generateDocFromCode_result response of
        Inl e \<Rightarrow> (handleGenerate_catch render e s, None)
      | Inr markdown \<Rightarrow>
          (let s1 = s\<lparr>docResult := markdown\<rparr>
           in case createChatSession_request apiKey codeText markdown of
                Inl chatErr \<Rightarrow> (s1\<lparr>appState := SUCCESS\<rparr>, None)
              | Inr call \<Rightarrow>
                  (s1\<lparr>remoteCalls := remoteCalls s1 @ [call]\<rparr>,
                   Some (AwaitCreateChat apiKey codeText markdown))))"

text \<open>From the answer of \<open>createChatSession\<close> to the end.\<close>

definition handleGenerate_afterChat ::
  "string \<Rightarrow> string \<Rightarrow> string \<Rightarrow> thrown + unit \<Rightarrow> App \<Rightarrow> App"
where
  "handleGenerate_afterChat apiKey codeText markdown created s =
     (case createChatSession_result apiKey codeText markdown created of
        Inl chatErr \<Rightarrow> s\<lparr>appState := SUCCESS\<rparr>
      | Inr session \<Rightarrow> s\<lparr>chatSessionRef := Some session, appState := SUCCESS\<rparr>)"

text \<open>Resuming a suspended run with the answer it waits for.\<close>

fun handleGenerate_resume ::
  "(thrown \<Rightarrow> string) \<Rightarrow> Suspended \<Rightarrow> thrown + string option \<Rightarrow> thrown + unit \<Rightarrow> App
     \<Rightarrow> App \<times> Suspended option"
where
  "handleGenerate_resume render (AwaitGenerateDoc apiKey codeText) response created s =
     handleGenerate_afterDoc render apiKey codeText response s"
| "handleGenerate_resume render (AwaitCreateChat apiKey codeText markdown) response created s =
     (handleGenerate_afterChat apiKey codeText markdown created s, None)"

text \<open>
  One whole run of \<open>handleGenerate\<close>, with nothing else happening in between: given the
  answers of the two remote calls, the state at the end.
\<close>

definition handleGenerate_cfg ::
  "(thrown \<Rightarrow> string) \<Rightarrow> thrown + string option \<Rightarrow> thrown + unit \<Rightarrow> App \<Rightarrow> App"
where
  "handleGenerate_cfg render response created s =
     (case handleGenerate_start render s of
        (s1, None) \<Rightarrow> s1
      | (s1, Some k1) \<Rightarrow>
          (case handleGenerate_resume render k1 response created s1 of
             (s2, None) \<Rightarrow> s2
           | (s2, Some k2) \<Rightarrow> fst (handleGenerate_resume render k2 response created s2)))"

definition handleGenerate :: "thrown + string option \<Rightarrow> thrown + unit \<Rightarrow> App \<Rightarrow> App" where
  "handleGenerate = handleGenerate_cfg errorDocument"

definition handleGenerate_v2 :: "thrown + string option \<Rightarrow> thrown + unit \<Rightarrow> App \<Rightarrow> App" where
  "handleGenerate_v2 = handleGenerate_cfg errorDocument_v2"

text \<open>
  The button that calls \<open>handleGenerate\<close>. A disabled button does not deliver the click.
  \<open>disabled={fileList.length === 0 || appState === AppState.GENERATING}\<close>, and in the
  second version \<open>disabled={appState === AppState.GENERATING}\<close>, where the button is part
  of the workbench, which is rendered when \<open>hasFiles\<close> (\<open>fileList.length > 0\<close>).
\<close>

definition generateDisabled :: "App \<Rightarrow> bool" where
  "generateDisabled s \<longleftrightarrow> length (fileList s) = 0 \<or> appState s = GENERATING"

definition hasFiles :: "App \<Rightarrow> bool" where
  "hasFiles s \<longleftrightarrow> length (fileList s) > 0"

definition generateDisabled_v2 :: "App \<Rightarrow> bool" where
  "generateDisabled_v2 s \<longleftrightarrow> appState s = GENERATING"

definition clickGenerate :: "App \<Rightarrow> App \<times> Suspended option" where
  "clickGenerate s = (if generateDisabled s then (s, None) else handleGenerate_start errorDocument s)"

definition clickGenerate_v2 :: "App \<Rightarrow> App \<times> Suspended option" where
  "clickGenerate_v2 s =
     (if \<not> hasFiles s \<or> generateDisabled_v2 s then (s, None)
      else handleGenerate_start errorDocument_v2 s)"

section \<open>The other handlers of \<open>App\<close> and the events of the component\<close>

text \<open>
  \<open>handleClear\<close>, and \<open>handleClearWorkspace\<close> of the second version, which first asks
  \<open>window.confirm\<close>. (Emptying the file input is not part of the modelled state.)
\<close>

definition handleClear :: "App \<Rightarrow> App" where
  "handleClear s =
     s\<lparr>code := [], fileList := [], docResult := [], appState := IDLE,
       chatSessionRef := None, activeTab := DocTab\<rparr>"

definition handleClearWorkspace :: "bool \<Rightarrow> App \<Rightarrow> App" where
  "handleClearWorkspace confirmed s =
     (if confirmed
      then s\<lparr>code := [], fileList := [], docResult := [], appState := IDLE,
             chatSessionRef := None, activeTab := DocTab\<rparr>
      else s)"

text \<open>
  The Clear button: in \<open>src/App.tsx\<close> it is rendered when \<open>fileList.length > 0\<close>; in
  the second version it is part of the workbench, which is rendered when \<open>hasFiles\<close>.
  Neither is disabled while the workflow state is \<open>GENERATING\<close>.
\<close>

definition clickClear :: "App \<Rightarrow> App" where
  "clickClear s = (if length (fileList s) > 0 then handleClear s else s)"

definition clickClearWorkspace :: "App \<Rightarrow> App" where
  "clickClearWorkspace s = (if hasFiles s then handleClearWorkspace True s else s)"

text \<open>
  \<open>handleSaveApiKey\<close>, with the content of the key field: a key that is not blank is
  stored trimmed and the modal closes. (The cells \<open>hasApiKey\<close>, \<open>apiKeyInput\<close> and
  \<open>copied\<close> only drive the display and are not part of the modelled state.)
\<close>

definition handleSaveApiKey :: "string \<Rightarrow> App \<Rightarrow> App" where
  "handleSaveApiKey apiKeyInput s =
     (if truthy (trim apiKeyInput)
      then s\<lparr>gemini_api_key := Some (trim apiKeyInput), isKeyModalOpen := False\<rparr>
      else s)"

text \<open>
  The tab buttons: \<open>setActiveTab('doc')\<close>, and \<open>setActiveTab('chat')\<close> behind
  \<open>disabled={appState !== AppState.SUCCESS}\<close>.
\<close>

definition clickTab :: "Tab \<Rightarrow> App \<Rightarrow> App" where
  "clickTab t s = (if t = ChatTab \<and> appState s \<noteq> SUCCESS then s else s\<lparr>activeTab := t\<rparr>)"

text \<open>
  \<open>handleFileChange\<close>: a selection that is not empty goes to \<open>processFiles\<close>, whose
  writes to the state (\<open>setFileList\<close>, \<open>setCode\<close>, \<open>setIsReading(false)\<close>) happen
  together when the reads are done.
\<close>

definition handleFileChange :: "File list \<Rightarrow> App \<Rightarrow> App" where
  "handleFileChange files s = (if length files > 0 then processFiles files s else s)"

definition handleFileChange_v2 :: "File list \<Rightarrow> App \<Rightarrow> App" where
  "handleFileChange_v2 files s = (if length files > 0 then processFiles_v2 files s else s)"

text \<open>
  What can happen to the component, one event at a time: the user's actions, and the
  answers of the remote calls, each of which resumes the run of \<open>handleGenerate\<close> that
  waits for it (the event carries the values that run has captured). \<open>handleGenerate\<close>
  has one call site, the \<open>onClick\<close> of the Generate button.
\<close>

datatype Event =
  FilesRead "File list"
| ClickGenerate
| ClickClear
| ClickTab Tab
| OpenKeyModal
| CloseKeyModal
| SaveApiKey string
| GenerateDocAnswer string string "thrown + string option"
| CreateChatAnswer string string string "thrown + unit"

fun applyEvent :: "Event \<Rightarrow> App \<Rightarrow> App" where
  "applyEvent (FilesRead files) s = handleFileChange files s"
| "applyEvent ClickGenerate s = fst (clickGenerate s)"
| "applyEvent ClickClear s = clickClear s"
| "applyEvent (ClickTab t) s = clickTab t s"
| "applyEvent OpenKeyModal s = s\<lparr>isKeyModalOpen := True\<rparr>"
| "applyEvent CloseKeyModal s = s\<lparr>isKeyModalOpen := False\<rparr>"
| "applyEvent (SaveApiKey apiKeyInput) s = handleSaveApiKey apiKeyInput s"
| "applyEvent (GenerateDocAnswer apiKey codeText response) s =
     fst (handleGenerate_afterDoc errorDocument apiKey codeText response s)"
| "applyEvent (CreateChatAnswer apiKey codeText markdown created) s =
     handleGenerate_afterChat apiKey codeText markdown created s"

fun applyEvent_v2 :: "Event \<Rightarrow> App \<Rightarrow> App" where
  "applyEvent_v2 (FilesRead files) s = handleFileChange_v2 files s"
| "applyEvent_v2 ClickGenerate s = fst (clickGenerate_v2 s)"
| "applyEvent_v2 ClickClear s = clickClearWorkspace s"
| "applyEvent_v2 (ClickTab t) s = clickTab t s"
| "applyEvent_v2 OpenKeyModal s = s\<lparr>isKeyModalOpen := True\<rparr>"
| "applyEvent_v2 CloseKeyModal s = s\<lparr>isKeyModalOpen := False\<rparr>"
| "applyEvent_v2 (SaveApiKey apiKeyInput) s = handleSaveApiKey apiKeyInput s"
| "applyEvent_v2 (GenerateDocAnswer apiKey codeText response) s =
     fst (handleGenerate_afterDoc errorDocument_v2 apiKey codeText response s)"
| "applyEvent_v2 (CreateChatAnswer apiKey codeText markdown created) s =
     handleGenerate_afterChat apiKey codeText markdown created s"

text \<open>A sequence of events, first to last.\<close>

fun runEvents :: "Event list \<Rightarrow> App \<Rightarrow> App" where
  "runEvents [] s = s"
| "runEvents (ev # evs) s = runEvents evs (applyEvent ev s)"

fun runEvents_v2 :: "Event list \<Rightarrow> App \<Rightarrow> App" where
  "runEvents_v2 [] s = s"
| "runEvents_v2 (ev # evs) s = runEvents_v2 evs (applyEvent_v2 ev s)"



section \<open>The chat component: \<open>ChatInterface\<close>\<close>

text \<open>
  A message of the transcript; the fields \<open>id\<close> and \<open>text\<close> of the source are \<open>msg_id\<close>
  and \<open>msg_text\<close>.
\<close>

datatype Role = user | model

record ChatMessage =
  msg_id :: string
  role :: Role
  msg_text :: string
  timestamp :: nat

text \<open>
  The state of the component: \<open>messages\<close>, \<open>input\<close> and \<open>isSending\<close>. The session is a
  property handed in by \<open>App\<close>, \<open>null\<close> when there is none.
\<close>

record ChatInterface =
  messages :: "ChatMessage list"
  input :: string
  isSending :: bool

text \<open>The three fixed texts of the component, as the UTF-8 bytes of the source literals.\<close>

definition GREETING :: string where
  "GREETING =
    [CHR 0xE6, CHR 0x88, CHR 0x91, CHR 0xE5, CHR 0xB7, CHR 0xB2, CHR 0xE7, CHR 0xBB, CHR 0x8F,
     CHR 0xE5, CHR 0x88, CHR 0x86, CHR 0xE6, CHR 0x9E, CHR 0x90, CHR 0xE4, CHR 0xBA, CHR 0x86,
     CHR 0xE6, CHR 0x82, CHR 0xA8, CHR 0xE7, CHR 0x9A, CHR 0x84, CHR 0xE4, CHR 0xBB, CHR 0xA3,
     CHR 0xE7, CHR 0xA0, CHR 0x81, CHR 0xE5, CHR 0x92, CHR 0x8C, CHR 0xE6, CHR 0x8A, CHR 0x80,
     CHR 0xE6, CHR 0x9C, CHR 0xAF, CHR 0xE6, CHR 0x96, CHR 0x87, CHR 0xE6, CHR 0xA1, CHR 0xA3,
     CHR 0xE3, CHR 0x80, CHR 0x82, CHR 0xE6, CHR 0x82, CHR 0xA8, CHR 0xE5, CHR 0x8F, CHR 0xAF,
     CHR 0xE4, CHR 0xBB, CHR 0xA5, CHR 0xE9, CHR 0x97, CHR 0xAE, CHR 0xE6, CHR 0x88, CHR 0x91,
     CHR 0xE4, CHR 0xBB, CHR 0xBB, CHR 0xE4, CHR 0xBD, CHR 0x95, CHR 0xE5, CHR 0x85, CHR 0xB3,
     CHR 0xE4, CHR 0xBA, CHR 0x8E, CHR 0xE9, CHR 0xA1, CHR 0xB9, CHR 0xE7, CHR 0x9B, CHR 0xAE,
     CHR 0xE9, CHR 0x80, CHR 0xBB, CHR 0xE8, CHR 0xBE, CHR 0x91, CHR 0xE3, CHR 0x80, CHR 0x81,
     CHR 0xE6, CHR 0x95, CHR 0xB0, CHR 0xE6, CHR 0x8D, CHR 0xAE, CHR 0xE7, CHR 0xBB, CHR 0x93,
     CHR 0xE6, CHR 0x9E, CHR 0x84, CHR 0xE6, CHR 0x88, CHR 0x96, CHR 0xE4, CHR 0xBB, CHR 0xA3,
     CHR 0xE7, CHR 0xA0, CHR 0x81, CHR 0xE5, CHR 0xAE, CHR 0x9E, CHR 0xE7, CHR 0x8E, CHR 0xB0,
     CHR 0xE7, CHR 0x9A, CHR 0x84, CHR 0xE9, CHR 0x97, CHR 0xAE, CHR 0xE9, CHR 0xA2, CHR 0x98,
     CHR 0xE3, CHR 0x80, CHR 0x82]"

definition NO_ANSWER :: string where
  "NO_ANSWER =
    [CHR 0xE6, CHR 0x97, CHR 0xA0, CHR 0xE6, CHR 0xB3, CHR 0x95, CHR 0xE7, CHR 0x94, CHR 0x9F,
     CHR 0xE6, CHR 0x88, CHR 0x90, CHR 0xE5, CHR 0x9B, CHR 0x9E, CHR 0xE7, CHR 0xAD, CHR 0x94,
     CHR 0xEF, CHR 0xBC, CHR 0x8C, CHR 0xE8, CHR 0xAF, CHR 0xB7, CHR 0xE9, CHR 0x87, CHR 0x8D,
     CHR 0xE8, CHR 0xAF, CHR 0x95, CHR 0xE3, CHR 0x80, CHR 0x82]"

definition SEND_ERROR :: string where
  "SEND_ERROR =
    [CHR 0x2A, CHR 0x2A, CHR 0xE9, CHR 0x94, CHR 0x99, CHR 0xE8, CHR 0xAF, CHR 0xAF, CHR 0x2A,
     CHR 0x2A, CHR 0x3A, CHR 0x20, CHR 0xE5, CHR 0x8F, CHR 0x91, CHR 0xE9, CHR 0x80, CHR 0x81,
     CHR 0xE6, CHR 0xB6, CHR 0x88, CHR 0xE6, CHR 0x81, CHR 0xAF, CHR 0xE5, CHR 0xA4, CHR 0xB1,
     CHR 0xE8, CHR 0xB4, CHR 0xA5, CHR 0xEF, CHR 0xBC, CHR 0x8C, CHR 0xE8, CHR 0xAF, CHR 0xB7,
     CHR 0xE6, CHR 0xA3, CHR 0x80, CHR 0xE6, CHR 0x9F, CHR 0xA5, CHR 0xE7, CHR 0xBD, CHR 0x91,
     CHR 0xE7, CHR 0xBB, CHR 0x9C, CHR 0xE6, CHR 0x88, CHR 0x96, CHR 0x20, CHR 0x41, CHR 0x50,
     CHR 0x49, CHR 0x20, CHR 0x4B, CHR 0x65, CHR 0x79, CHR 0xE3, CHR 0x80, CHR 0x82]"

text \<open>
  The effect that adds the greeting when a session is there and the transcript is empty.
\<close>

definition greetEffect :: "Chat option \<Rightarrow> nat \<Rightarrow> ChatInterface \<Rightarrow> ChatInterface" where
  "greetEffect chatSession now c =
     (if chatSession \<noteq> None \<and> length (messages c) = 0
      then c\<lparr>messages := [\<lparr>msg_id = ''init'', role = model, msg_text = GREETING, timestamp = now\<rparr>]\<rparr>
      else c)"

text \<open>
  \<open>handleSend\<close> up to its \<open>await\<close>. \<open>now1\<close> and \<open>now2\<close> are the two readings of
  \<open>Date.now()\<close> that build the user's message. The result says whether
  \<open>chatSession.sendMessage\<close> was called, and with which text.
\<close>

definition handleSend_start ::
  "Chat option \<Rightarrow> nat \<Rightarrow> nat \<Rightarrow> ChatInterface \<Rightarrow> ChatInterface \<times> string option"
where
  "handleSend_start chatSession now1 now2 c =
     (if \<not> truthy (trim (input c)) \<or> chatSession = None \<or> isSending c then (c, None)
      else
        (let userMsg = \<lparr>msg_id = toString now1, role = user, msg_text = input c, timestamp = now2\<rparr>
         in (c\<lparr>messages := messages c @ [userMsg], input := [], isSending := True\<rparr>,
             Some (msg_text userMsg))))"

text \<open>
  \<open>handleSend\<close> from the answer of \<open>sendMessage\<close> to the end; \<open>now3\<close> and \<open>now4\<close> are
  the readings of \<open>Date.now()\<close> that build the model's message or the error message.
\<close>

definition handleSend_finish ::
  "thrown + string option \<Rightarrow> nat \<Rightarrow> nat \<Rightarrow> ChatInterface \<Rightarrow> ChatInterface"
where
  "handleSend_finish result now3 now4 c =
     (case result of
        Inr responseText \<Rightarrow>
          (let aiMsg = \<lparr>msg_id = toString (now3 + 1), role = model,
                        msg_text = (case responseText of
                                      None \<Rightarrow> NO_ANSWER
                                    | Some t \<Rightarrow> if truthy t then t else NO_ANSWER),
                        timestamp = now4\<rparr>
           in c\<lparr>messages := messages c @ [aiMsg], isSending := False\<rparr>)
      | Inl error \<Rightarrow>
          (let errorMsg = \<lparr>msg_id = toString (now3 + 1), role = model,
                           msg_text = SEND_ERROR, timestamp = now4\<rparr>
           in c\<lparr>messages := messages c @ [errorMsg], isSending := False\<rparr>))"

text \<open>One whole run of \<open>handleSend\<close>, given the four clock readings and the answer.\<close>

definition handleSend ::
  "Chat option \<Rightarrow> nat \<Rightarrow> nat \<Rightarrow> nat \<Rightarrow> nat \<Rightarrow> thrown + string option \<Rightarrow> ChatInterface
     \<Rightarrow> ChatInterface"
where
  "handleSend chatSession now1 now2 now3 now4 result c =
     (case handleSend_start chatSession now1 now2 c of
        (c1, None) \<Rightarrow> c1
      | (c1, Some message) \<Rightarrow> handleSend_finish result now3 now4 c1)"

section \<open>The specification's vocabulary\<close>

text \<open>
  An item is accepted when it passes both filters and its content can be read; its
  content is the text that the read gives.
\<close>

definition readSucceeds :: "File \<Rightarrow> bool" where
  "readSucceeds file = (case readAsText file of Inl e \<Rightarrow> False | Inr content \<Rightarrow> True)"

definition contentOf :: "File \<Rightarrow> string" where
  "contentOf file = (case readAsText file of Inl e \<Rightarrow> [] | Inr content \<Rightarrow> content)"

definition accepted :: "string list \<Rightarrow> string list \<Rightarrow> File \<Rightarrow> bool" where
  "accepted dirs exts file \<longleftrightarrow>
     \<not> isIgnored dirs (filePath file) \<and> isAllowed exts (filePath file) \<and> readSucceeds file"

definition manifestEntry :: "File \<Rightarrow> FileItem" where
  "manifestEntry file = \<lparr>path = filePath file, isize = fsize file\<rparr>"

text \<open>The segments of a path, and the directory rule as the specification words it.\<close>

definition segments :: "string \<Rightarrow> string list" where
  "segments p = splitOn (CHR ''/'') p"

definition hasIgnoredSegment :: "string list \<Rightarrow> string \<Rightarrow> bool" where
  "hasIgnoredSegment dirs p = list_ex (\<lambda>dir. dir \<in> set (segments p)) dirs"

definition lacksAllowedExtension :: "string list \<Rightarrow> string \<Rightarrow> bool" where
  "lacksAllowedExtension exts p = list_all (\<lambda>ext. \<not> suffix ext (toLowerCase p)) exts"

text \<open>
  A configuration in which no directory name or extension holds a slash and no
  lowered directory name ends with an extension.
\<close>

definition plainConfig :: "string list \<Rightarrow> string list \<Rightarrow> bool" where
  "plainConfig dirs exts \<longleftrightarrow>
     list_all (\<lambda>dir. CHR ''/'' \<notin> set dir) dirs
     \<and> list_all (\<lambda>ext. CHR ''/'' \<notin> set ext) exts
     \<and> list_all (\<lambda>dir. list_all (\<lambda>ext. \<not> suffix ext (toLowerCase dir)) exts) dirs"

text \<open>
  Modelled from the spec: the repository holds no function that cuts a corpus back into
  files (the corpus is read by the remote model). The definitions below follow the
  delimiter format of the specification: a sentinel line is a whole line of the form
  \<open>--- START OF FILE <path> ---\<close>; the text is cut at every sentinel line; the content
  of an entry is what lies between its sentinel line and the next one, without the two
  newlines that close the entry.
\<close>

definition isSentinel :: "string \<Rightarrow> bool" where
  "isSentinel l \<longleftrightarrow>
     prefix ''--- START OF FILE '' l \<and> suffix '' ---'' l \<and> 22 \<le> length l"

definition sentinelPath :: "string \<Rightarrow> string" where
  "sentinelPath l = take (length l - 22) (drop 18 l)"

text \<open>
  Modelled from the spec: grouping the lines of a corpus, from the right. The result
  is the lines before the first sentinel line, and for every sentinel line its path with
  the lines that follow it.
\<close>

fun sections :: "string list \<Rightarrow> string list \<times> (string \<times> string list) list" where
  "sections [] = ([], [])"
| "sections (l # ls) =
     (case sections ls of
        (body, entries) \<Rightarrow>
          if isSentinel l then ([], (sentinelPath l, body) # entries)
          else (l # body, entries))"

definition unlines :: "string list \<Rightarrow> string" where
  "unlines ls = concat (map (\<lambda>l. l @ [CHR 0x0A]) ls)"

text \<open>
  Modelled from the spec: splitting a corpus on its sentinel lines. The lines are the
  pieces between newlines (the piece after the last newline is left out); every entry
  gives its path and its content.
\<close>

definition splitCorpus :: "string \<Rightarrow> (string \<times> string) list" where
  "splitCorpus t =
     map (\<lambda>(p, body). (p, butlast (butlast (unlines body))))
       (snd (sections (butlast (splitOn (CHR 0x0A) t))))"

text \<open>The sentinel line of a path, and the lines that the block of a file consists of.\<close>

definition sentinel :: "string \<Rightarrow> string" where
  "sentinel p = ''--- START OF FILE '' @ p @ '' ---''"

definition blockLines :: "File \<Rightarrow> string list" where
  "blockLines f = sentinel (filePath f) # splitOn (CHR 0x0A) (contentOf f) @ [[]]"

text \<open>The text of the model's turn that \<open>handleSend\<close> appends, by the answer it got.\<close>

definition modelText :: "thrown + string option \<Rightarrow> string" where
  "modelText result =
     (case result of
        Inl error \<Rightarrow> SEND_ERROR
      | Inr None \<Rightarrow> NO_ANSWER
      | Inr (Some t) \<Rightarrow> if truthy t then t else NO_ANSWER)"






section \<open>Concrete inputs\<close>

text \<open>The state of the component when it is mounted, with no stored credential.\<close>

definition initialApp :: App where
  "initialApp = \<lparr>code = [], fileList = [], docResult = [], appState = IDLE, isReading = False,
     isKeyModalOpen = False, activeTab = DocTab, chatSessionRef = None, gemini_api_key = None,
     remoteCalls = []\<rparr>"

text \<open>The selection of Scenario A: three files, each of one byte.\<close>

definition scenarioA :: "File list" where
  "scenarioA =
     [mkFile ''src/a.ts'' ''x'', mkFile ''node_modules/b.js'' ''y'', mkFile ''README.md'' ''z'']"

text \<open>A file that passes both filters and whose read ends with \<open>onerror\<close>.\<close>

definition unreadableFile :: File where
  "unreadableFile =
     \<lparr>webkitRelativePath = ''src/a.ts'', name = ''a.ts'', fsize = 1, readAsText = Inl NonError\<rparr>"

text \<open>
  Two selections with the same corpus text: one file whose content holds a sentinel
  line, and the two files that this content looks like.
\<close>

definition sentinelInContent :: "File list" where
  "sentinelInContent =
     [mkFile ''a.ts''
        (''x'' @ [CHR 0x0A, CHR 0x0A] @ ''--- START OF FILE b.ts ---'' @ [CHR 0x0A] @ ''y'')]"

definition twoPlainFiles :: "File list" where
  "twoPlainFiles = [mkFile ''a.ts'' ''x'', mkFile ''b.ts'' ''y'']"

text \<open>
  A workspace with one file loaded and a credential stored; the same with no credential;
  and the first after \<open>handleGenerate\<close> has reached its first \<open>await\<close>.
\<close>

definition loadedApp :: App where
  "loadedApp = processFiles [mkFile ''a.ts'' ''x''] (initialApp\<lparr>gemini_api_key := Some ''k''\<rparr>)"

definition noKeyApp :: App where
  "noKeyApp = processFiles [mkFile ''a.ts'' ''x''] initialApp"

definition generatingApp :: App where
  "generatingApp = fst (handleGenerate_start errorDocument loadedApp)"

text \<open>A session, and the chat of Scenario F: the greeting, one earlier exchange, and a
  question typed in.\<close>

definition someChat :: Chat where
  "someChat = \<lparr>chatKey = ''k'', fileContext = fileBlock ''a.ts'' ''x'', generatedDoc = ''# Doc''\<rparr>"

definition scenarioF :: ChatInterface where
  "scenarioF =
     \<lparr>messages =
        [\<lparr>msg_id = ''init'', role = model, msg_text = GREETING, timestamp = 500\<rparr>,
         \<lparr>msg_id = ''600'', role = user, msg_text = ''what is a.ts?'', timestamp = 600\<rparr>,
         \<lparr>msg_id = ''701'', role = model, msg_text = ''a module'', timestamp = 700\<rparr>],
      input = ''and b.ts?'', isSending = False\<rparr>"

text \<open>
  A chat in which the first message is sent at time 1000 and fails at time 1005, and the
  next message is sent at time 1006.
\<close>

definition firstSendFails :: ChatInterface where
  "firstSendFails =
     handleSend (Some someChat) 1000 1000 1005 1005 (Inl NonError)
       (greetEffect (Some someChat) 900 \<lparr>messages = [], input = ''hello'', isSending = False\<rparr>)"

definition resentOneMillisecondLater :: ChatInterface where
  "resentOneMillisecondLater =
     handleSend (Some someChat) 1006 1006 2000 2000 (Inr (Some ''hi''))
       (firstSendFails\<lparr>input := ''hello again''\<rparr>)"





section \<open>Properties of the corpus assembler\<close>

subsection \<open>The loop as a filter\<close>

lemma fileList_processFiles_cfg:
  "fileList (processFiles_cfg dirs exts files s) = fst (processFiles_loop dirs exts files [] [])"
  by (simp add: processFiles_cfg_def split: prod.split)

lemma code_processFiles_cfg:
  "code (processFiles_cfg dirs exts files s) = snd (processFiles_loop dirs exts files [] [])"
  by (simp add: processFiles_cfg_def split: prod.split)

lemma processFiles_loop_eq:
  "processFiles_loop dirs exts files vs cc =
     (vs @ map manifestEntry (filter (accepted dirs exts) files),
      cc @ concat (map (\<lambda>f. fileBlock (filePath f) (contentOf f)) (filter (accepted dirs exts) files)))"
proof (induction files arbitrary: vs cc)
  case Nil
  show ?case by simp
next
  case (Cons f fs)
  show ?case
  proof (cases "readAsText f")
    case (Inl e)
    then show ?thesis
      by (simp add: Cons.IH accepted_def readSucceeds_def readFileContent_def Let_def)
  next
    case (Inr content)
    then show ?thesis
      by (simp add: Cons.IH accepted_def readSucceeds_def readFileContent_def Let_def
          manifestEntry_def contentOf_def)
  qed
qed

subsection \<open>Cutting a string at a separator\<close>

lemma splitOn_not_Nil: "splitOn c s \<noteq> []"
  by (induction s) (auto split: list.splits)

lemma splitOn_no_sep: "c \<notin> set s \<Longrightarrow> splitOn c s = [s]"
  by (induction s) auto

lemma splitOn_append: "splitOn c (a @ c # b) = splitOn c a @ splitOn c b"
proof (induction a)
  case Nil
  show ?case by simp
next
  case (Cons x a)
  obtain l ls where "splitOn c a = l # ls"
    using splitOn_not_Nil [of c a] by (cases "splitOn c a") auto
  then show ?case using Cons by (auto split: list.splits)
qed

lemma splitOn_pieces: "l \<in> set (splitOn c s) \<Longrightarrow> c \<notin> set l"
proof (induction s arbitrary: l)
  case Nil
  then show ?case by simp
next
  case (Cons x s)
  then show ?case by (auto split: if_splits list.splits)
qed

lemma in_splitOn_imp:
  "d \<in> set (splitOn c p) \<Longrightarrow>
     p = d \<or> prefix (d @ [c]) p \<or> suffix (c # d) p \<or> sublist (c # d @ [c]) p"
proof (induction p rule: length_induct)
  case (1 p)
  show ?case
  proof (cases "c \<in> set p")
    case False
    with 1 show ?thesis by (simp add: splitOn_no_sep)
  next
    case True
    then obtain a b where p: "p = a @ c # b" and a: "c \<notin> set a"
      by (meson split_list_first)
    have "d \<in> set (splitOn c a) \<or> d \<in> set (splitOn c b)"
      using 1(2) by (simp add: p splitOn_append)
    then show ?thesis
    proof
      assume "d \<in> set (splitOn c a)"
      then have "d = a" using a by (simp add: splitOn_no_sep)
      then show ?thesis by (simp add: p)
    next
      assume d: "d \<in> set (splitOn c b)"
      have "length b < length p" by (simp add: p)
      with 1(1) d have "b = d \<or> prefix (d @ [c]) b \<or> suffix (c # d) b \<or> sublist (c # d @ [c]) b"
        by blast
      then show ?thesis
      proof (elim disjE)
        assume "b = d"
        then show ?thesis by (simp add: p suffix_def)
      next
        assume "prefix (d @ [c]) b"
        then obtain r where "b = (d @ [c]) @ r" by (auto simp: prefix_def)
        then have "p = a @ (c # d @ [c]) @ r" by (simp add: p)
        then have "sublist (c # d @ [c]) p" unfolding sublist_def by blast
        then show ?thesis by simp
      next
        assume "suffix (c # d) b"
        then have "suffix (c # d) p" by (simp add: p suffix_appendI suffix_ConsI)
        then show ?thesis by simp
      next
        assume "sublist (c # d @ [c]) b"
        then obtain r t where "b = r @ (c # d @ [c]) @ t" unfolding sublist_def by blast
        then have "p = (a @ c # r) @ (c # d @ [c]) @ t" by (simp add: p)
        then have "sublist (c # d @ [c]) p" unfolding sublist_def by blast
        then show ?thesis by simp
      qed
    qed
  qed
qed

lemma in_splitOn_iff:
  "d \<in> set (splitOn c p) \<longleftrightarrow>
     c \<notin> set d \<and> (p = d \<or> prefix (d @ [c]) p \<or> suffix (c # d) p \<or> sublist (c # d @ [c]) p)"
proof
  assume "d \<in> set (splitOn c p)"
  then show "c \<notin> set d \<and> (p = d \<or> prefix (d @ [c]) p \<or> suffix (c # d) p \<or> sublist (c # d @ [c]) p)"
    using splitOn_pieces in_splitOn_imp by blast
next
  assume r: "c \<notin> set d \<and> (p = d \<or> prefix (d @ [c]) p \<or> suffix (c # d) p \<or> sublist (c # d @ [c]) p)"
  then have d: "splitOn c d = [d]" by (simp add: splitOn_no_sep)
  from r consider "p = d" | "prefix (d @ [c]) p" | "suffix (c # d) p" | "sublist (c # d @ [c]) p"
    by blast
  then show "d \<in> set (splitOn c p)"
  proof cases
    case 1
    then show ?thesis by (simp add: d)
  next
    case 2
    then obtain r where "p = d @ c # r" by (auto simp: prefix_def)
    then show ?thesis by (simp add: splitOn_append d)
  next
    case 3
    then obtain r where "p = r @ c # d" by (auto simp: suffix_def)
    then show ?thesis by (simp add: splitOn_append d)
  next
    case 4
    then obtain r t where "p = r @ c # d @ c # t" by (auto simp: sublist_def)
    then show ?thesis by (simp add: splitOn_append d)
  qed
qed

subsection \<open>Evaluation on concrete files\<close>

lemma mkFile_sel:
  "filePath (mkFile p c) = p" "fsize (mkFile p c) = length c" "contentOf (mkFile p c) = c"
  "readSucceeds (mkFile p c)"
  by (simp_all add: mkFile_def filePath_def truthy_def contentOf_def readSucceeds_def)

lemma scenarioA_accepted:
  "filter (accepted IGNORED_DIRS ALLOWED_EXTENSIONS) scenarioA
     = [mkFile ''src/a.ts'' ''x'', mkFile ''README.md'' ''z'']"
  "filter (accepted IGNORED_DIRS_v2 ALLOWED_EXTENSIONS_v2) scenarioA
     = [mkFile ''src/a.ts'' ''x'', mkFile ''README.md'' ''z'']"
  "filter (accepted [''node_modules''] [''.ts'', ''.md'']) scenarioA
     = [mkFile ''src/a.ts'' ''x'', mkFile ''README.md'' ''z'']"
  by code_simp+

lemma case_files:
  "processFiles_loop IGNORED_DIRS ALLOWED_EXTENSIONS [mkFile ''NODE_MODULES/a.ts'' ''x''] [] []
     = ([\<lparr>path = ''NODE_MODULES/a.ts'', isize = 1\<rparr>], fileBlock ''NODE_MODULES/a.ts'' ''x'')"
  "processFiles_loop IGNORED_DIRS ALLOWED_EXTENSIONS [mkFile ''node_modules/a.ts'' ''x''] [] []
     = ([], [])"
  "processFiles_loop IGNORED_DIRS ALLOWED_EXTENSIONS [mkFile ''src/A.TS'' ''x''] [] []
     = ([\<lparr>path = ''src/A.TS'', isize = 1\<rparr>], fileBlock ''src/A.TS'' ''x'')"
  "processFiles_loop IGNORED_DIRS_v2 ALLOWED_EXTENSIONS_v2 [mkFile ''NODE_MODULES/a.ts'' ''x''] [] []
     = ([\<lparr>path = ''NODE_MODULES/a.ts'', isize = 1\<rparr>], fileBlock ''NODE_MODULES/a.ts'' ''x'')"
  "processFiles_loop IGNORED_DIRS_v2 ALLOWED_EXTENSIONS_v2 [mkFile ''node_modules/a.ts'' ''x''] [] []
     = ([], [])"
  by code_simp+

lemma case_paths:
  "isIgnored IGNORED_DIRS ''node_modules/a.ts''"
  "\<not> isIgnored IGNORED_DIRS ''NODE_MODULES/a.ts''"
  "toLowerCase ''NODE_MODULES/a.ts'' = ''node_modules/a.ts''"
  by code_simp+

lemma toLowerChar_idem: "toLowerChar (toLowerChar c) = toLowerChar c"
  by simp

lemma toLowerCase_idem: "toLowerCase (toLowerCase p) = toLowerCase p"
  by (simp add: toLowerCase_def toLowerChar_idem del: toLowerChar.simps)

subsection \<open>Corpus text and manifest\<close>

text \<open>
  C2. For every selection, the corpus text is the concatenation, in selection order, of
  one block per accepted file: the line \<open>--- START OF FILE <path> ---\<close>, a newline, the
  raw content and two newlines. The manifest lists the path and size of exactly the
  accepted files, in the same order. Both versions of the component agree on this, each
  with its own configuration.
\<close>

theorem corpus_and_manifest_in_selection_order:
  "code (processFiles files s) =
     concat (map (\<lambda>f. ''--- START OF FILE '' @ filePath f @ '' ---'' @ [CHR 0x0A]
                         @ contentOf f @ [CHR 0x0A, CHR 0x0A])
               (filter (accepted IGNORED_DIRS ALLOWED_EXTENSIONS) files))
   \<and> fileList (processFiles files s) =
     map (\<lambda>f. \<lparr>path = filePath f, isize = fsize f\<rparr>)
       (filter (accepted IGNORED_DIRS ALLOWED_EXTENSIONS) files)
   \<and> code (processFiles_v2 files s) =
     concat (map (\<lambda>f. ''--- START OF FILE '' @ filePath f @ '' ---'' @ [CHR 0x0A]
                         @ contentOf f @ [CHR 0x0A, CHR 0x0A])
               (filter (accepted IGNORED_DIRS_v2 ALLOWED_EXTENSIONS_v2) files))
   \<and> fileList (processFiles_v2 files s) =
     map (\<lambda>f. \<lparr>path = filePath f, isize = fsize f\<rparr>)
       (filter (accepted IGNORED_DIRS_v2 ALLOWED_EXTENSIONS_v2) files)"
  by (simp add: processFiles_def processFiles_v2_def fileList_processFiles_cfg
      code_processFiles_cfg processFiles_loop_eq fileBlock_def manifestEntry_def)

text \<open>The same at the selection of Scenario A, where the second file is left out.\<close>

theorem corpus_and_manifest_witness:
  "code (processFiles scenarioA initialApp) =
     ''--- START OF FILE src/a.ts ---'' @ [CHR 0x0A] @ ''x'' @ [CHR 0x0A, CHR 0x0A]
     @ ''--- START OF FILE README.md ---'' @ [CHR 0x0A] @ ''z'' @ [CHR 0x0A, CHR 0x0A]
   \<and> fileList (processFiles scenarioA initialApp) =
     [\<lparr>path = ''src/a.ts'', isize = 1\<rparr>, \<lparr>path = ''README.md'', isize = 1\<rparr>]"
  using corpus_and_manifest_in_selection_order [of scenarioA initialApp]
  by (simp add: scenarioA_accepted mkFile_sel)

subsection \<open>Case sensitivity of the two filters\<close>

text \<open>
  C10. The ignored-directory test compares the path as it is, while the extension test
  lowers the path first: lowering a path never changes the outcome of the extension
  test, but it changes the outcome of the directory test for \<open>NODE_MODULES/a.ts\<close>. So
  \<open>NODE_MODULES/a.ts\<close> is accepted into the manifest and the corpus while the same path
  in lower case is dropped, and a file with an upper-case extension is accepted. This
  holds for the constants of both versions of the component.
\<close>

theorem filters_differ_in_case_sensitivity:
  "isAllowed exts (toLowerCase p) = isAllowed exts p
   \<and> toLowerCase ''NODE_MODULES/a.ts'' = ''node_modules/a.ts''
   \<and> isIgnored IGNORED_DIRS ''node_modules/a.ts''
   \<and> \<not> isIgnored IGNORED_DIRS ''NODE_MODULES/a.ts''
   \<and> fileList (processFiles [mkFile ''NODE_MODULES/a.ts'' ''x''] s)
      = [\<lparr>path = ''NODE_MODULES/a.ts'', isize = 1\<rparr>]
   \<and> code (processFiles [mkFile ''NODE_MODULES/a.ts'' ''x''] s)
      = fileBlock ''NODE_MODULES/a.ts'' ''x''
   \<and> fileList (processFiles [mkFile ''node_modules/a.ts'' ''x''] s) = []
   \<and> code (processFiles [mkFile ''node_modules/a.ts'' ''x''] s) = []
   \<and> fileList (processFiles [mkFile ''src/A.TS'' ''x''] s) = [\<lparr>path = ''src/A.TS'', isize = 1\<rparr>]
   \<and> fileList (processFiles_v2 [mkFile ''NODE_MODULES/a.ts'' ''x''] s)
      = [\<lparr>path = ''NODE_MODULES/a.ts'', isize = 1\<rparr>]
   \<and> fileList (processFiles_v2 [mkFile ''node_modules/a.ts'' ''x''] s) = []"
  by (simp only: processFiles_def processFiles_v2_def fileList_processFiles_cfg
      code_processFiles_cfg case_files case_paths isAllowed_def toLowerCase_idem
      fst_conv snd_conv simp_thms)

subsection \<open>The directory rule and path segments\<close>

lemma suffix_without_sep:
  assumes "c \<notin> set e" and "suffix e (x @ c # d)"
  shows "suffix e d"
proof -
  from assms(2) have "suffix e (c # d) \<or> (\<exists>e'. e = e' @ c # d \<and> suffix e' x)"
    by (simp add: suffix_append)
  with assms(1) have "suffix e (c # d)" by auto
  with assms(1) show ?thesis by (auto simp: suffix_Cons)
qed

lemma toLowerCase_append: "toLowerCase (a @ b) = toLowerCase a @ toLowerCase b"
  by (simp add: toLowerCase_def)

lemma toLowerCase_slash: "toLowerCase (CHR ''/'' # d) = CHR ''/'' # toLowerCase d"
  by (simp add: toLowerCase_def)

lemma lacks_iff_not_allowed: "lacksAllowedExtension exts p \<longleftrightarrow> \<not> isAllowed exts p"
  by (simp add: lacksAllowedExtension_def isAllowed_def endsWith_def list_all_iff list_ex_iff)

lemma dropped_rules_agree:
  assumes cfg: "plainConfig dirs exts"
  shows "(isIgnored dirs p \<or> \<not> isAllowed exts p)
     \<longleftrightarrow> (hasIgnoredSegment dirs p \<or> lacksAllowedExtension exts p)"
proof -
  have dirs: "\<And>d. d \<in> set dirs \<Longrightarrow> CHR ''/'' \<notin> set d"
    and exts: "\<And>e. e \<in> set exts \<Longrightarrow> CHR ''/'' \<notin> set e"
    and ends: "\<And>d e. d \<in> set dirs \<Longrightarrow> e \<in> set exts \<Longrightarrow> \<not> suffix e (toLowerCase d)"
    using cfg by (auto simp: plainConfig_def list_all_iff)
  have 1: "hasIgnoredSegment dirs p" if "isIgnored dirs p"
  proof -
    from that obtain d where d: "d \<in> set dirs"
      and "sublist (CHR ''/'' # d @ [CHR ''/'']) p \<or> prefix (d @ [CHR ''/'']) p"
      by (auto simp: isIgnored_def list_ex_iff includesStr_def startsWith_def)
    then have "d \<in> set (splitOn (CHR ''/'') p)"
      using dirs [OF d] by (auto simp: in_splitOn_iff)
    with d show ?thesis by (auto simp: hasIgnoredSegment_def list_ex_iff segments_def)
  qed
  have 2: "\<not> isAllowed exts p" if seg: "hasIgnoredSegment dirs p" and ign: "\<not> isIgnored dirs p"
  proof
    assume "isAllowed exts p"
    then obtain e where e: "e \<in> set exts" and suf: "suffix e (toLowerCase p)"
      by (auto simp: isAllowed_def list_ex_iff endsWith_def)
    from seg obtain d where d: "d \<in> set dirs" and "d \<in> set (splitOn (CHR ''/'') p)"
      by (auto simp: hasIgnoredSegment_def list_ex_iff segments_def)
    then have "p = d \<or> prefix (d @ [CHR ''/'']) p \<or> suffix (CHR ''/'' # d) p
        \<or> sublist (CHR ''/'' # d @ [CHR ''/'']) p"
      by (simp add: in_splitOn_iff)
    moreover have "\<not> prefix (d @ [CHR ''/'']) p" "\<not> sublist (CHR ''/'' # d @ [CHR ''/'']) p"
      using ign d by (auto simp: isIgnored_def list_ex_iff includesStr_def startsWith_def)
    ultimately consider "p = d" | "suffix (CHR ''/'' # d) p" by blast
    then show False
    proof cases
      case 1
      with suf ends [OF d e] show False by simp
    next
      case 2
      then obtain r where "p = r @ CHR ''/'' # d" by (auto simp: suffix_def)
      then have "toLowerCase p = toLowerCase r @ CHR ''/'' # toLowerCase d"
        by (simp add: toLowerCase_append toLowerCase_slash)
      with suf have "suffix e (toLowerCase d)"
        using suffix_without_sep [OF exts [OF e]] by metis
      with ends [OF d e] show False by simp
    qed
  qed
  show ?thesis using 1 2 by (auto simp: lacks_iff_not_allowed)
qed

lemma plain_configs:
  "plainConfig IGNORED_DIRS ALLOWED_EXTENSIONS"
  "plainConfig IGNORED_DIRS_v2 ALLOWED_EXTENSIONS_v2"
  "plainConfig [''node_modules''] [''.ts'', ''.md'']"
  by code_simp+

lemma accepted_iff:
  "plainConfig dirs exts \<Longrightarrow>
   accepted dirs exts f \<longleftrightarrow>
     \<not> (hasIgnoredSegment dirs (filePath f) \<or> lacksAllowedExtension exts (filePath f)
        \<or> \<not> readSucceeds f)"
  using dropped_rules_agree [of dirs exts "filePath f"] by (auto simp: accepted_def)

lemma manifest_by_rules:
  assumes "plainConfig dirs exts"
  shows "fileList (processFiles_cfg dirs exts files s) =
     map manifestEntry
       (filter (\<lambda>f. \<not> (hasIgnoredSegment dirs (filePath f)
                        \<or> lacksAllowedExtension exts (filePath f) \<or> \<not> readSucceeds f)) files)"
proof -
  have "accepted dirs exts = (\<lambda>f. \<not> (hasIgnoredSegment dirs (filePath f)
                        \<or> lacksAllowedExtension exts (filePath f) \<or> \<not> readSucceeds f))"
    using accepted_iff [OF assms] by blast
  then show ?thesis
    by (simp add: fileList_processFiles_cfg processFiles_loop_eq)
qed

lemma single_dropped_iff:
  assumes "plainConfig dirs exts"
  shows "fileList (processFiles_cfg dirs exts [f] s) = [] \<longleftrightarrow>
     hasIgnoredSegment dirs (filePath f) \<or> lacksAllowedExtension exts (filePath f)
       \<or> \<not> readSucceeds f"
  by (simp add: manifest_by_rules [OF assms])

lemma scenarioA_rules:
  "isIgnored [''node_modules''] ''node_modules/b.js''"
  "hasIgnoredSegment [''node_modules''] ''node_modules/b.js''"
  "hasIgnoredSegment IGNORED_DIRS ''node_modules/b.js''"
  "\<not> hasIgnoredSegment IGNORED_DIRS ''not_node_modules/b.js''"
  "\<not> lacksAllowedExtension ALLOWED_EXTENSIONS ''not_node_modules/b.js''"
  by code_simp+

lemma unreadable_eval:
  "processFiles_loop IGNORED_DIRS ALLOWED_EXTENSIONS [unreadableFile] [] [] = ([], [])"
  "\<not> hasIgnoredSegment IGNORED_DIRS (filePath unreadableFile)"
  "\<not> lacksAllowedExtension ALLOWED_EXTENSIONS (filePath unreadableFile)"
  by code_simp+

text \<open>
  C4, as the claim states it, fails: a file that passes both filters and cannot be read
  is dropped as well, although its path holds no ignored directory name and ends with
  an allowed extension.
\<close>

theorem unreadable_item_dropped_counterexample:
  "fileList (processFiles [unreadableFile] initialApp) = []
   \<and> \<not> (hasIgnoredSegment IGNORED_DIRS (filePath unreadableFile)
        \<or> lacksAllowedExtension ALLOWED_EXTENSIONS (filePath unreadableFile))"
  by (simp only: processFiles_def fileList_processFiles_cfg unreadable_eval fst_conv simp_thms)

text \<open>
  C4, amended. An item is dropped by the corpus assembler if and only if its path holds
  an ignored directory name as an exact path segment, or its lowered path ends with none
  of the allowed extensions, or its content cannot be read. This holds for the
  constants of both versions of the component; the manifest is the list of the items
  that are not dropped, in selection order. For the selection and the configuration of
  Scenario A the manifest is \<open>src/a.ts\<close> and \<open>README.md\<close>, each of size 1, and
  \<open>node_modules/b.js\<close> is left out by the directory rule.
\<close>

theorem dropped_iff_rule_or_unreadable:
  "(fileList (processFiles [f] s) = [] \<longleftrightarrow>
      hasIgnoredSegment IGNORED_DIRS (filePath f)
      \<or> lacksAllowedExtension ALLOWED_EXTENSIONS (filePath f) \<or> \<not> readSucceeds f)
   \<and> (fileList (processFiles_v2 [f] s) = [] \<longleftrightarrow>
      hasIgnoredSegment IGNORED_DIRS_v2 (filePath f)
      \<or> lacksAllowedExtension ALLOWED_EXTENSIONS_v2 (filePath f) \<or> \<not> readSucceeds f)
   \<and> fileList (processFiles files s) =
       map manifestEntry
         (filter (\<lambda>f. \<not> (hasIgnoredSegment IGNORED_DIRS (filePath f)
                          \<or> lacksAllowedExtension ALLOWED_EXTENSIONS (filePath f)
                          \<or> \<not> readSucceeds f)) files)
   \<and> fileList (processFiles_cfg [''node_modules''] [''.ts'', ''.md''] scenarioA s) =
       [\<lparr>path = ''src/a.ts'', isize = 1\<rparr>, \<lparr>path = ''README.md'', isize = 1\<rparr>]
   \<and> isIgnored [''node_modules''] ''node_modules/b.js''
   \<and> hasIgnoredSegment [''node_modules''] ''node_modules/b.js''"
proof (intro conjI)
  show "fileList (processFiles [f] s) = [] \<longleftrightarrow>
      hasIgnoredSegment IGNORED_DIRS (filePath f)
      \<or> lacksAllowedExtension ALLOWED_EXTENSIONS (filePath f) \<or> \<not> readSucceeds f"
    unfolding processFiles_def by (rule single_dropped_iff [OF plain_configs(1)])
  show "fileList (processFiles_v2 [f] s) = [] \<longleftrightarrow>
      hasIgnoredSegment IGNORED_DIRS_v2 (filePath f)
      \<or> lacksAllowedExtension ALLOWED_EXTENSIONS_v2 (filePath f) \<or> \<not> readSucceeds f"
    unfolding processFiles_v2_def by (rule single_dropped_iff [OF plain_configs(2)])
  show "fileList (processFiles files s) =
       map manifestEntry
         (filter (\<lambda>f. \<not> (hasIgnoredSegment IGNORED_DIRS (filePath f)
                          \<or> lacksAllowedExtension ALLOWED_EXTENSIONS (filePath f)
                          \<or> \<not> readSucceeds f)) files)"
    unfolding processFiles_def by (rule manifest_by_rules [OF plain_configs(1)])
  show "fileList (processFiles_cfg [''node_modules''] [''.ts'', ''.md''] scenarioA s) =
       [\<lparr>path = ''src/a.ts'', isize = 1\<rparr>, \<lparr>path = ''README.md'', isize = 1\<rparr>]"
    by (simp add: fileList_processFiles_cfg processFiles_loop_eq scenarioA_accepted
        manifestEntry_def mkFile_sel)
  show "isIgnored [''node_modules''] ''node_modules/b.js''"
    by (rule scenarioA_rules)
  show "hasIgnoredSegment [''node_modules''] ''node_modules/b.js''"
    by (rule scenarioA_rules)
qed

text \<open>
  The same on two files with readable content: \<open>node_modules/b.js\<close> is dropped, while
  \<open>not_node_modules/b.js\<close>, which holds the directory name only as a substring of a
  segment, is kept.
\<close>

theorem dropped_iff_witness:
  "fileList (processFiles [mkFile ''node_modules/b.js'' ''y''] initialApp) = []
   \<and> fileList (processFiles [mkFile ''not_node_modules/b.js'' ''y''] initialApp) \<noteq> []"
  using dropped_iff_rule_or_unreadable [of "mkFile ''node_modules/b.js'' ''y''" initialApp]
    dropped_iff_rule_or_unreadable [of "mkFile ''not_node_modules/b.js'' ''y''" initialApp]
  by (simp add: mkFile_sel scenarioA_rules)

subsection \<open>Cutting the corpus back into files\<close>

lemma unlines_splitOn: "unlines (splitOn (CHR 0x0A) t) = t @ [CHR 0x0A]"
proof (induction t)
  case Nil
  show ?case by (simp add: unlines_def)
next
  case (Cons x t)
  obtain l ls where l: "splitOn (CHR 0x0A) t = l # ls"
    using splitOn_not_Nil [of "CHR 0x0A" t] by (cases "splitOn (CHR 0x0A) t") auto
  with Cons show ?case by (auto simp: unlines_def)
qed

lemma unlines_append: "unlines (a @ b) = unlines a @ unlines b"
  by (simp add: unlines_def)

lemma isSentinel_sentinel: "isSentinel (sentinel p)"
proof -
  have "suffix '' ---'' (''--- START OF FILE '' @ p @ '' ---'')"
    by (intro suffix_appendI suffix_order.refl)
  then show ?thesis by (simp add: isSentinel_def sentinel_def)
qed

lemma sentinelPath_sentinel: "sentinelPath (sentinel p) = p"
  by (simp add: sentinelPath_def sentinel_def)

lemma not_isSentinel_Nil: "\<not> isSentinel []"
  by (simp add: isSentinel_def)

lemma splitOn_sentinel:
  "CHR 0x0A \<notin> set p \<Longrightarrow> splitOn (CHR 0x0A) (sentinel p) = [sentinel p]"
  by (rule splitOn_no_sep) (simp add: sentinel_def)

lemma fileBlock_sentinel:
  "fileBlock p t = sentinel p @ CHR 0x0A # (t @ CHR 0x0A # [CHR 0x0A])"
  by (simp add: fileBlock_def sentinel_def)

lemma splitOn_block:
  assumes "CHR 0x0A \<notin> set p"
  shows "splitOn (CHR 0x0A) (fileBlock p t @ rest)
           = sentinel p # splitOn (CHR 0x0A) t @ [[]] @ splitOn (CHR 0x0A) rest"
proof -
  have "fileBlock p t @ rest = sentinel p @ CHR 0x0A # (t @ CHR 0x0A # (CHR 0x0A # rest))"
    by (simp add: fileBlock_sentinel)
  then show ?thesis
    by (simp only: splitOn_append splitOn_sentinel [OF assms]) simp
qed

lemma splitOn_corpus:
  assumes "\<forall>f \<in> set fs. CHR 0x0A \<notin> set (filePath f)"
  shows "splitOn (CHR 0x0A) (concat (map (\<lambda>f. fileBlock (filePath f) (contentOf f)) fs))
           = concat (map blockLines fs) @ [[]]"
  using assms
proof (induction fs)
  case Nil
  show ?case by simp
next
  case (Cons f fs)
  then show ?case by (simp add: splitOn_block blockLines_def)
qed

lemma sections_body:
  "\<forall>l \<in> set b. \<not> isSentinel l \<Longrightarrow> sections (b @ r) = (b @ fst (sections r), snd (sections r))"
  by (induction b) (auto split: prod.splits)

lemma sections_corpus:
  assumes "\<forall>f \<in> set fs. \<forall>l \<in> set (splitOn (CHR 0x0A) (contentOf f)). \<not> isSentinel l"
  shows "sections (concat (map blockLines fs))
           = ([], map (\<lambda>f. (filePath f, splitOn (CHR 0x0A) (contentOf f) @ [[]])) fs)"
  using assms
proof (induction fs)
  case Nil
  show ?case by simp
next
  case (Cons f fs)
  let ?body = "splitOn (CHR 0x0A) (contentOf f) @ [[]]"
  have body: "\<forall>l \<in> set ?body. \<not> isSentinel l"
    using Cons.prems by (auto simp: not_isSentinel_Nil)
  have rest: "sections (concat (map blockLines fs))
      = ([], map (\<lambda>f. (filePath f, splitOn (CHR 0x0A) (contentOf f) @ [[]])) fs)"
    using Cons by simp
  have "concat (map blockLines (f # fs))
      = sentinel (filePath f) # (?body @ concat (map blockLines fs))"
    by (simp add: blockLines_def)
  moreover have "sections (?body @ concat (map blockLines fs))
      = (?body, map (\<lambda>f. (filePath f, splitOn (CHR 0x0A) (contentOf f) @ [[]])) fs)"
    using sections_body [OF body, of "concat (map blockLines fs)"] rest by simp
  ultimately show ?case
    by (simp add: isSentinel_sentinel sentinelPath_sentinel)
qed

lemma content_of_body:
  "butlast (butlast (unlines (splitOn (CHR 0x0A) t @ [[]]))) = t"
proof -
  have "unlines (splitOn (CHR 0x0A) t @ [[]]) = (t @ [CHR 0x0A]) @ [CHR 0x0A]"
    by (simp add: unlines_append unlines_splitOn) (simp add: unlines_def)
  then show ?thesis by (simp add: butlast_append)
qed

lemma splitCorpus_corpus:
  assumes "\<forall>f \<in> set fs. CHR 0x0A \<notin> set (filePath f)
             \<and> (\<forall>l \<in> set (splitOn (CHR 0x0A) (contentOf f)). \<not> isSentinel l)"
  shows "splitCorpus (concat (map (\<lambda>f. fileBlock (filePath f) (contentOf f)) fs))
           = map (\<lambda>f. (filePath f, contentOf f)) fs"
proof -
  have 1: "\<forall>f \<in> set fs. CHR 0x0A \<notin> set (filePath f)"
    and 2: "\<forall>f \<in> set fs. \<forall>l \<in> set (splitOn (CHR 0x0A) (contentOf f)). \<not> isSentinel l"
    using assms by auto
  show ?thesis
    by (simp add: splitCorpus_def splitOn_corpus [OF 1] sections_corpus [OF 2]
        content_of_body comp_def)
qed

lemma collision_eval:
  "snd (processFiles_loop IGNORED_DIRS ALLOWED_EXTENSIONS sentinelInContent [] [])
     = snd (processFiles_loop IGNORED_DIRS ALLOWED_EXTENSIONS twoPlainFiles [] [])"
  "filter (accepted IGNORED_DIRS ALLOWED_EXTENSIONS) sentinelInContent = sentinelInContent"
  "filter (accepted IGNORED_DIRS ALLOWED_EXTENSIONS) twoPlainFiles = twoPlainFiles"
  "map contentOf sentinelInContent \<noteq> map contentOf twoPlainFiles"
  "splitCorpus (snd (processFiles_loop IGNORED_DIRS ALLOWED_EXTENSIONS sentinelInContent [] []))
     = [(''a.ts'', ''x''), (''b.ts'', ''y'')]"
  "splitCorpus (snd (processFiles_loop IGNORED_DIRS ALLOWED_EXTENSIONS twoPlainFiles [] []))
     = [(''a.ts'', ''x''), (''b.ts'', ''y'')]"
  "length sentinelInContent = 1"
  by code_simp+

lemma scenarioA_plain:
  "\<forall>f \<in> set [mkFile ''src/a.ts'' ''x'', mkFile ''README.md'' ''z''].
             CHR 0x0A \<notin> set (filePath f)
             \<and> (\<forall>l \<in> set (splitOn (CHR 0x0A) (contentOf f)). \<not> isSentinel l)"
  by (simp add: mkFile_sel isSentinel_def)

text \<open>
  C3, as the claim states it, fails when a content holds a sentinel line: a selection of
  one such file gives the same corpus text as a selection of two plain files, so no way
  of splitting the text can give back the contents of both; splitting on the sentinel
  lines gives two entries where one file was accepted.
\<close>

theorem sentinel_in_content_counterexample:
  "code (processFiles sentinelInContent initialApp) = code (processFiles twoPlainFiles initialApp)
   \<and> map contentOf (filter (accepted IGNORED_DIRS ALLOWED_EXTENSIONS) sentinelInContent)
       \<noteq> map contentOf (filter (accepted IGNORED_DIRS ALLOWED_EXTENSIONS) twoPlainFiles)
   \<and> length (filter (accepted IGNORED_DIRS ALLOWED_EXTENSIONS) sentinelInContent) = 1
   \<and> splitCorpus (code (processFiles sentinelInContent initialApp))
       = [(''a.ts'', ''x''), (''b.ts'', ''y'')]"
  by (simp only: processFiles_def code_processFiles_cfg collision_eval simp_thms)

text \<open>
  C3, amended. When no accepted path holds a newline and no line of an accepted content
  is a sentinel line, splitting the corpus text on its sentinel lines gives back exactly
  the accepted items, path and content, in order, with no loss and no duplication.
\<close>

theorem split_recovers_contents:
  assumes "\<forall>f \<in> set (filter (accepted IGNORED_DIRS ALLOWED_EXTENSIONS) files).
             CHR 0x0A \<notin> set (filePath f)
             \<and> (\<forall>l \<in> set (splitOn (CHR 0x0A) (contentOf f)). \<not> isSentinel l)"
  shows "splitCorpus (code (processFiles files s))
           = map (\<lambda>f. (filePath f, contentOf f))
               (filter (accepted IGNORED_DIRS ALLOWED_EXTENSIONS) files)"
  using splitCorpus_corpus [OF assms]
  by (simp add: processFiles_def code_processFiles_cfg processFiles_loop_eq)

text \<open>The same at the selection of Scenario A.\<close>

theorem split_recovers_contents_witness:
  "splitCorpus (code (processFiles scenarioA initialApp))
     = [(''src/a.ts'', ''x''), (''README.md'', ''z'')]"
proof -
  have h: "\<forall>f \<in> set (filter (accepted IGNORED_DIRS ALLOWED_EXTENSIONS) scenarioA).
             CHR 0x0A \<notin> set (filePath f)
             \<and> (\<forall>l \<in> set (splitOn (CHR 0x0A) (contentOf f)). \<not> isSentinel l)"
    unfolding scenarioA_accepted by (rule scenarioA_plain)
  show ?thesis
    using split_recovers_contents [OF h, of initialApp]
    by (simp add: scenarioA_accepted mkFile_sel)
qed

section \<open>Properties of the workflow controller\<close>

subsection \<open>The runs of \<open>handleGenerate\<close>\<close>

lemma start_no_key:
  assumes "truthy (trim (code s))" and "gemini_api_key s = None \<or> gemini_api_key s = Some []"
  shows "handleGenerate_start render s = (s\<lparr>isKeyModalOpen := True\<rparr>, None)"
  using assms by (auto simp: handleGenerate_start_def truthy_def)

lemma start_with_key:
  assumes "truthy (trim (code s))" and "gemini_api_key s = Some k" and "truthy k"
  shows "handleGenerate_start render s =
     (s\<lparr>appState := GENERATING, docResult := [], chatSessionRef := None, activeTab := DocTab,
        remoteCalls := remoteCalls s @ [GenerateContent k (code s)]\<rparr>,
      Some (AwaitGenerateDoc k (code s)))"
  using assms by (simp add: handleGenerate_start_def generateDocFromCode_request_def Let_def)

lemma run_no_key:
  assumes "truthy (trim (code s))" and "gemini_api_key s = None \<or> gemini_api_key s = Some []"
  shows "handleGenerate_cfg render response created s = s\<lparr>isKeyModalOpen := True\<rparr>"
  by (simp add: handleGenerate_cfg_def start_no_key [OF assms])

lemma run_doc_failed:
  assumes "truthy (trim (code s))" and "gemini_api_key s = Some k" and "truthy k"
  shows "handleGenerate_cfg render (Inl e) created s =
     s\<lparr>appState := ERROR, docResult := render e, chatSessionRef := None, activeTab := DocTab,
        remoteCalls := remoteCalls s @ [GenerateContent k (code s)]\<rparr>"
  by (simp add: handleGenerate_cfg_def start_with_key [OF assms] handleGenerate_afterDoc_def
      generateDocFromCode_result_def handleGenerate_catch_def)

lemma run_chat_failed:
  assumes "truthy (trim (code s))" and "gemini_api_key s = Some k" and "truthy k"
    and "generateDocFromCode_result response = Inr markdown"
  shows "handleGenerate_cfg render response (Inl e) s =
     s\<lparr>appState := SUCCESS, docResult := markdown, chatSessionRef := None, activeTab := DocTab,
        remoteCalls := remoteCalls s @ [GenerateContent k (code s), ChatsCreate k (code s) markdown]\<rparr>"
  using assms(3,4)
  by (simp add: handleGenerate_cfg_def start_with_key [OF assms(1,2,3)] handleGenerate_afterDoc_def
      createChatSession_request_def handleGenerate_afterChat_def createChatSession_result_def
      Let_def)

lemma run_all_succeeded:
  assumes "truthy (trim (code s))" and "gemini_api_key s = Some k" and "truthy k"
    and "generateDocFromCode_result response = Inr markdown"
  shows "handleGenerate_cfg render response (Inr ()) s =
     s\<lparr>appState := SUCCESS, docResult := markdown,
        chatSessionRef := Some \<lparr>chatKey = k, fileContext = code s, generatedDoc = markdown\<rparr>,
        activeTab := DocTab,
        remoteCalls := remoteCalls s @ [GenerateContent k (code s), ChatsCreate k (code s) markdown]\<rparr>"
  using assms(3,4)
  by (simp add: handleGenerate_cfg_def start_with_key [OF assms(1,2,3)] handleGenerate_afterDoc_def
      createChatSession_request_def handleGenerate_afterChat_def createChatSession_result_def
      Let_def)


lemma noKeyApp_eval:
  "gemini_api_key noKeyApp = None" "truthy (trim (code noKeyApp))"
  "appState noKeyApp = IDLE" "isKeyModalOpen noKeyApp = False" "remoteCalls noKeyApp = []"
  "docResult noKeyApp = []" "chatSessionRef noKeyApp = None"
  by (code_simp+)

subsection \<open>Events and the session handle\<close>












subsection \<open>Events and the document slot\<close>




subsection \<open>A run among other events\<close>





lemma start_Some_generating:
  "snd (handleGenerate_start render s) \<noteq> None
     \<Longrightarrow> appState (fst (handleGenerate_start render s)) = GENERATING"
  by (auto simp: handleGenerate_start_def handleGenerate_catch_def Let_def
      split: option.splits sum.splits if_splits)

lemma click_while_generating:
  "appState s = GENERATING \<Longrightarrow> clickGenerate s = (s, None)"
  "appState s = GENERATING \<Longrightarrow> clickGenerate_v2 s = (s, None)"
  by (simp_all add: clickGenerate_def clickGenerate_v2_def generateDisabled_def
      generateDisabled_v2_def)

lemma clicks_while_generating:
  "appState s = GENERATING \<Longrightarrow> runEvents (replicate n ClickGenerate) s = s"
  "appState s = GENERATING \<Longrightarrow> runEvents_v2 (replicate n ClickGenerate) s = s"
  by (induction n) (simp_all add: click_while_generating)

lemma click_started_generating:
  "snd (clickGenerate s) \<noteq> None \<Longrightarrow> appState (fst (clickGenerate s)) = GENERATING"
  "snd (clickGenerate_v2 s) \<noteq> None \<Longrightarrow> appState (fst (clickGenerate_v2 s)) = GENERATING"
  by (auto simp: clickGenerate_def clickGenerate_v2_def start_Some_generating split: if_splits)

lemma generatingApp_eval:
  "appState generatingApp = GENERATING"
  "remoteCalls generatingApp = [GenerateContent ''k'' (fileBlock ''a.ts'' ''x'')]"
  "snd (clickGenerate loadedApp) = Some (AwaitGenerateDoc ''k'' (fileBlock ''a.ts'' ''x''))"
  "snd (clickGenerate loadedApp) \<noteq> None"
  "fst (clickGenerate loadedApp) = generatingApp"
  "remoteCalls (runEvents [ClickGenerate, ClickGenerate, ClickGenerate] loadedApp)
     = [GenerateContent ''k'' (fileBlock ''a.ts'' ''x'')]"
  by (code_simp+)

subsection \<open>Starting a generation while one is in flight\<close>

text \<open>
  C1. In every workflow state: while the state is \<open>GENERATING\<close>, the start-generation
  action is a no-op. \<open>handleGenerate\<close> is called from the Generate button only, and the
  button is disabled in that state, so a click changes nothing: the state stays as it
  is, no run of \<open>handleGenerate\<close> begins and no request is added, however many times the
  button is clicked. Whenever a click does start a run, the state it leaves is
  \<open>GENERATING\<close>, so the next click is a no-op. Both versions of the component agree.
\<close>

theorem start_generation_is_noop_while_generating:
  assumes "appState s = GENERATING"
  shows "clickGenerate s = (s, None) \<and> clickGenerate_v2 s = (s, None)
     \<and> applyEvent ClickGenerate s = s \<and> applyEvent_v2 ClickGenerate s = s
     \<and> remoteCalls (applyEvent ClickGenerate s) = remoteCalls s
     \<and> runEvents (replicate n ClickGenerate) s = s
     \<and> runEvents_v2 (replicate n ClickGenerate) s = s
     \<and> (snd (clickGenerate t) \<noteq> None \<longrightarrow>
          appState (fst (clickGenerate t)) = GENERATING
          \<and> clickGenerate (fst (clickGenerate t)) = (fst (clickGenerate t), None))
     \<and> (snd (clickGenerate_v2 t) \<noteq> None \<longrightarrow>
          appState (fst (clickGenerate_v2 t)) = GENERATING
          \<and> clickGenerate_v2 (fst (clickGenerate_v2 t)) = (fst (clickGenerate_v2 t), None))"
  using assms
  by (simp add: click_while_generating clicks_while_generating click_started_generating)

text \<open>
  The same at the workspace whose first request is in flight, and at the loaded
  workspace, where three clicks in a row issue one request.
\<close>

theorem start_generation_noop_witness:
  "appState generatingApp = GENERATING
   \<and> clickGenerate generatingApp = (generatingApp, None)
   \<and> clickGenerate_v2 generatingApp = (generatingApp, None)
   \<and> runEvents (replicate 3 ClickGenerate) generatingApp = generatingApp
   \<and> snd (clickGenerate loadedApp) \<noteq> None
   \<and> clickGenerate (fst (clickGenerate loadedApp)) = (fst (clickGenerate loadedApp), None)
   \<and> remoteCalls (runEvents [ClickGenerate, ClickGenerate, ClickGenerate] loadedApp)
       = [GenerateContent ''k'' (fileBlock ''a.ts'' ''x'')]"
proof -
  have h: "appState generatingApp = GENERATING" by (rule generatingApp_eval)
  have g: "snd (clickGenerate loadedApp) \<noteq> None" by (rule generatingApp_eval)
  show ?thesis
    using h g start_generation_is_noop_while_generating [OF h, of 3 loadedApp]
      generatingApp_eval(6)
    by simp
qed

subsection \<open>A missing credential\<close>

text \<open>
  C7. In every workflow state, when the corpus is not blank and no credential is stored
  (the entry is absent or empty), \<open>handleGenerate\<close> returns at its second guard: the
  only change is that the key modal opens. The workflow state, the document and the
  session are as before, no request is issued, and so the state does not become
  \<open>ERROR\<close> because of the missing credential.
\<close>

theorem missing_credential_requests_key:
  assumes "truthy (trim (code s))" and "gemini_api_key s = None \<or> gemini_api_key s = Some []"
  shows "handleGenerate response created s = s\<lparr>isKeyModalOpen := True\<rparr>
     \<and> handleGenerate_v2 response created s = s\<lparr>isKeyModalOpen := True\<rparr>
     \<and> handleGenerate_start errorDocument s = (s\<lparr>isKeyModalOpen := True\<rparr>, None)
     \<and> appState (handleGenerate response created s) = appState s
     \<and> docResult (handleGenerate response created s) = docResult s
     \<and> chatSessionRef (handleGenerate response created s) = chatSessionRef s
     \<and> remoteCalls (handleGenerate response created s) = remoteCalls s
     \<and> isKeyModalOpen (handleGenerate response created s)"
  by (simp add: handleGenerate_def handleGenerate_v2_def run_no_key [OF assms]
      start_no_key [OF assms])

text \<open>The same at the workspace with a file loaded and no credential.\<close>

theorem missing_credential_witness:
  "truthy (trim (code noKeyApp)) \<and> gemini_api_key noKeyApp = None
   \<and> appState (handleGenerate (Inl NonError) (Inl NonError) noKeyApp) = IDLE
   \<and> remoteCalls (handleGenerate (Inl NonError) (Inl NonError) noKeyApp) = []
   \<and> isKeyModalOpen (handleGenerate (Inl NonError) (Inl NonError) noKeyApp)"
proof -
  have h: "truthy (trim (code noKeyApp))" "gemini_api_key noKeyApp = None"
    by (rule noKeyApp_eval)+
  have h2: "gemini_api_key noKeyApp = None \<or> gemini_api_key noKeyApp = Some []"
    using h(2) by simp
  show ?thesis
    using h missing_credential_requests_key [OF h(1) h2, of "Inl NonError" "Inl NonError"]
      noKeyApp_eval(3,5)
    by simp
qed

subsection \<open>Overlapping runs\<close>





subsection \<open>Failure of the document generation\<close>




subsection \<open>Failure of the session creation\<close>




section \<open>Properties of the chat component\<close>

lemma handleSend_eq:
  assumes "truthy (trim (input c))" and "\<not> isSending c"
  shows "handleSend (Some ch) now1 now2 now3 now4 result c =
     c\<lparr>messages := messages c @
          [\<lparr>msg_id = toString now1, role = user, msg_text = input c, timestamp = now2\<rparr>,
           \<lparr>msg_id = toString (now3 + 1), role = model, msg_text = modelText result,
            timestamp = now4\<rparr>],
        input := [], isSending := False\<rparr>"
  using assms
  by (cases result)
     (auto simp: handleSend_def handleSend_start_def handleSend_finish_def modelText_def Let_def
           split: option.splits)

lemma handleSend_guard:
  assumes "\<not> truthy (trim (input c)) \<or> chatSession = None \<or> isSending c"
  shows "handleSend chatSession now1 now2 now3 now4 result c = c"
  using assms by (auto simp: handleSend_def handleSend_start_def)

lemma scenarioF_eval:
  "truthy (trim (input scenarioF))" "\<not> isSending scenarioF" "truthy (trim ''what about c.ts?'')"
  "toString 800 = ''800''" "toString (900 + 1) = ''901''"
  "toString 1000 = ''1000''" "toString (1100 + 1) = ''1101''"
  "input scenarioF = ''and b.ts?''"
  "truthy ''c.ts is a test''"
  by (code_simp+)

text \<open>
  C8. A run of \<open>handleSend\<close> that passes its guard (the input is not blank, a session is
  open, no send is outstanding) appends exactly two turns to the transcript: the user's
  turn and then one model turn, which carries the answer on success and the fixed error
  notice on failure. Afterwards no send is outstanding, so the next message passes the
  guard and appends its two turns in the same way.
\<close>

theorem send_appends_user_turn_and_model_turn:
  assumes "truthy (trim (input c))" and "\<not> isSending c" and "truthy (trim next)"
  shows "messages (handleSend (Some ch) now1 now2 now3 now4 result c) =
       messages c @
         [\<lparr>msg_id = toString now1, role = user, msg_text = input c, timestamp = now2\<rparr>,
          \<lparr>msg_id = toString (now3 + 1), role = model,
            msg_text = (case result of
                          Inl error \<Rightarrow> SEND_ERROR
                        | Inr None \<Rightarrow> NO_ANSWER
                        | Inr (Some t) \<Rightarrow> if truthy t then t else NO_ANSWER),
            timestamp = now4\<rparr>]
     \<and> \<not> isSending (handleSend (Some ch) now1 now2 now3 now4 result c)
     \<and> messages (handleSend (Some ch) now5 now6 now7 now8 result2
                  ((handleSend (Some ch) now1 now2 now3 now4 result c)\<lparr>input := next\<rparr>)) =
       messages (handleSend (Some ch) now1 now2 now3 now4 result c) @
         [\<lparr>msg_id = toString now5, role = user, msg_text = next, timestamp = now6\<rparr>,
          \<lparr>msg_id = toString (now7 + 1), role = model,
            msg_text = (case result2 of
                          Inl error \<Rightarrow> SEND_ERROR
                        | Inr None \<Rightarrow> NO_ANSWER
                        | Inr (Some t) \<Rightarrow> if truthy t then t else NO_ANSWER),
            timestamp = now8\<rparr>]"
proof -
  let ?c1 = "handleSend (Some ch) now1 now2 now3 now4 result c"
  have c1: "?c1 = c\<lparr>messages := messages c @
          [\<lparr>msg_id = toString now1, role = user, msg_text = input c, timestamp = now2\<rparr>,
           \<lparr>msg_id = toString (now3 + 1), role = model, msg_text = modelText result,
            timestamp = now4\<rparr>],
        input := [], isSending := False\<rparr>"
    by (rule handleSend_eq [OF assms(1,2)])
  have g: "truthy (trim (input (?c1\<lparr>input := next\<rparr>)))" "\<not> isSending (?c1\<lparr>input := next\<rparr>)"
    using assms(3) by (simp_all add: c1)
  have c2: "messages (handleSend (Some ch) now5 now6 now7 now8 result2 (?c1\<lparr>input := next\<rparr>)) =
       messages ?c1 @
         [\<lparr>msg_id = toString now5, role = user, msg_text = next, timestamp = now6\<rparr>,
          \<lparr>msg_id = toString (now7 + 1), role = model, msg_text = modelText result2,
            timestamp = now8\<rparr>]"
    by (simp add: handleSend_eq [OF g])
  have m: "modelText r = (case r of
                          Inl error \<Rightarrow> SEND_ERROR
                        | Inr None \<Rightarrow> NO_ANSWER
                        | Inr (Some t) \<Rightarrow> if truthy t then t else NO_ANSWER)" for r
    by (simp add: modelText_def)
  show ?thesis
    using c2 by (simp add: c1 m)
qed

text \<open>Scenario F: the send fails, and the next one succeeds.\<close>

theorem send_appends_witness:
  "truthy (trim (input scenarioF)) \<and> \<not> isSending scenarioF \<and> truthy (trim ''what about c.ts?'')
   \<and> messages (handleSend (Some someChat) 800 800 900 900 (Inl NonError) scenarioF) =
       messages scenarioF @
         [\<lparr>msg_id = ''800'', role = user, msg_text = ''and b.ts?'', timestamp = 800\<rparr>,
          \<lparr>msg_id = ''901'', role = model, msg_text = SEND_ERROR, timestamp = 900\<rparr>]
   \<and> messages (handleSend (Some someChat) 1000 1000 1100 1100 (Inr (Some ''c.ts is a test''))
                 ((handleSend (Some someChat) 800 800 900 900 (Inl NonError) scenarioF)
                    \<lparr>input := ''what about c.ts?''\<rparr>)) =
       messages (handleSend (Some someChat) 800 800 900 900 (Inl NonError) scenarioF) @
         [\<lparr>msg_id = ''1000'', role = user, msg_text = ''what about c.ts?'', timestamp = 1000\<rparr>,
          \<lparr>msg_id = ''1101'', role = model, msg_text = ''c.ts is a test'', timestamp = 1100\<rparr>]"
proof -
  have h: "truthy (trim (input scenarioF))" "\<not> isSending scenarioF"
    "truthy (trim ''what about c.ts?'')"
    by (rule scenarioF_eval)+
  show ?thesis
    using h send_appends_user_turn_and_model_turn
      [OF h, of someChat 800 800 900 900 "Inl NonError" 1000 1000 1100 1100
         "Inr (Some ''c.ts is a test'')"]
    by (simp only: scenarioF_eval sum.case option.case if_True simp_thms)
qed

subsection \<open>Message identifiers\<close>

text \<open>
  C9 fails on the code. The user's turn gets the reading of the clock as its id and
  the model's turn the reading plus one. When a reply (here the error notice) is built
  at time 1005 and the next message is sent at time 1006, both get the id \<open>1006\<close>.
\<close>

theorem message_ids_collide:
  "map msg_id (messages resentOneMillisecondLater) = [''init'', ''1000'', ''1006'', ''1006'', ''2001'']
   \<and> map role (messages resentOneMillisecondLater) = [model, user, model, user, model]
   \<and> \<not> distinct (map msg_id (messages resentOneMillisecondLater))"
  by code_simp

end
